theory Spec2Isabelle
  imports Complex_Main
begin

section \<open>The seeding script \<^verbatim>\<open>seed_db.py\<close>\<close>

text \<open>
  The script opens the SQLite file \<^verbatim>\<open>local.db\<close>, makes sure that three tables exist,
  inserts a fixed list of categories and of sellers, reads the category identifiers back,
  generates 1184 product tuples and inserts them, and commits once. The model below follows
  the script statement by statement. Two things come from outside the script and are taken
  as they are documented: the meaning of the SQL statements (SQLite) and the transaction
  handling of Python's \<^verbatim>\<open>sqlite3\<close> module. The clock reading \<^verbatim>\<open>int(time.time() * 1000)\<close>
  is a parameter \<open>now\<close> of the run; the progress lines printed to standard output are
  left out. Failures of the storage engine itself (a full disk, a locked file, an exhausted
  row identifier space) are not modelled: every statement the store accepts is carried
  out.
\<close>

subsection \<open>The fixed catalogues\<close>

definition CATEGORIES :: "(string \<times> string) list" where
  "CATEGORIES =
    [(''Shoes'', ''Footwear and sneakers''),
     (''Fashion'', ''Clothing and apparel''),
     (''Furniture'', ''Home furniture and decor''),
     (''Electronics'', ''Electronic devices''),
     (''Accessories'', ''Fashion accessories''),
     (''Home Decor'', ''Home decoration items''),
     (''Jewelry'', ''Jewelry and watches''),
     (''Watches'', ''Timepieces'')]"

text \<open>The ratings are Python floats; a rating is kept as the exact value of its decimal
  literal. Nothing below computes with it.\<close>

definition SELLERS :: "(int \<times> string \<times> string \<times> string \<times> rat \<times> int) list" where
  "SELLERS =
    [(1, ''Nairobi Streetwear Hub'', ''Premium streetwear and sneakers'', ''254712345678'', 45 / 10, 0),
     (1, ''Westlands Fashion Co'', ''Trendy fashion and accessories'', ''254723456789'', 42 / 10, 0),
     (1, ''Gikomba Rare Finds'', ''Vintage and rare items'', ''254734567890'', 48 / 10, 0),
     (1, ''Kilimani Tech & Home'', ''Electronics and home items'', ''254745678901'', 40 / 10, 0),
     (1, ''Mombasa Road Furniture'', ''Quality furniture for homes'', ''254756789012'', 43 / 10, 0)]"

subsection \<open>Python values: errors, indexing, \<^verbatim>\<open>range\<close>, \<^verbatim>\<open>str\<close>\<close>

datatype error = KeyError string | IndexError | OperationalError string

text \<open>\<^verbatim>\<open>xs[i]\<close>: positions \<open>0 .. len - 1\<close> from the front, \<open>-1 .. -len\<close> from the back,
  anything else raises.\<close>

definition py_getitem :: "'a list \<Rightarrow> int \<Rightarrow> error + 'a" where
  "py_getitem xs i =
     (if 0 \<le> i \<and> i < int (length xs) then Inr (xs ! nat i)
      else if - int (length xs) \<le> i \<and> i < 0 then Inr (xs ! nat (int (length xs) + i))
      else Inl IndexError)"

definition py_range :: "nat \<Rightarrow> int list" where
  "py_range n = map int [0..<n]"

function str_nat :: "nat \<Rightarrow> string" where
  "str_nat n =
     (if n < 10 then [''0123456789'' ! n]
      else str_nat (n div 10) @ [''0123456789'' ! (n mod 10)])"
  by pat_completeness auto
termination
  by (relation "measure (\<lambda>n. n)") auto

declare str_nat.simps [simp del]

definition str :: "int \<Rightarrow> string" where
  "str n = (if n < 0 then CHR ''-'' # str_nat (nat (- n)) else str_nat (nat n))"

subsection \<open>The store\<close>

text \<open>
  One record per table row, one field per column. A column declared \<^verbatim>\<open>NOT NULL\<close> (and the
  integer primary key) holds a value; any other column may hold \<^verbatim>\<open>NULL\<close>, which is
  \<open>None\<close>.
\<close>

record category_row =
  c_id :: int
  c_name :: string
  c_description :: "string option"
  c_createdAt :: "int option"

record seller_row =
  s_id :: int
  s_userId :: int
  s_storeName :: string
  s_description :: "string option"
  s_whatsappPhone :: "string option"
  s_rating :: "rat option"
  s_totalSales :: "int option"
  s_createdAt :: "int option"
  s_updatedAt :: "int option"

record product_row =
  p_id :: int
  p_sellerId :: int
  p_categoryId :: int
  p_name :: string
  p_description :: "string option"
  p_price :: string
  p_imageUrl :: "string option"
  p_stock :: "int option"
  p_source :: "string option"
  p_createdAt :: "int option"
  p_updatedAt :: "int option"

text \<open>
  A table is the list of its rows, oldest insertion first, together with the entry that
  SQLite keeps for an \<^verbatim>\<open>AUTOINCREMENT\<close> table in \<^verbatim>\<open>sqlite_sequence\<close>. A table that does
  not exist is \<open>None\<close>.
\<close>

record 'r table =
  t_rows :: "'r list"
  t_seq :: int

record db =
  tbl_categories :: "category_row table option"
  tbl_sellers :: "seller_row table option"
  tbl_products :: "product_row table option"

definition empty_db :: db where
  "empty_db = \<lparr>tbl_categories = None, tbl_sellers = None, tbl_products = None\<rparr>"

definition new_table :: "'r table" where
  "new_table = \<lparr>t_rows = [], t_seq = 0\<rparr>"

text \<open>
  The row identifier of an insert that names no \<open>id\<close>: one more than the largest
  identifier in the table (1 for an empty table), and with \<^verbatim>\<open>AUTOINCREMENT\<close> never below
  one more than the recorded sequence value. The sequence value becomes the identifier.
\<close>

definition next_rowid :: "int list \<Rightarrow> int \<Rightarrow> int" where
  "next_rowid ids s =
     max (case ids of [] \<Rightarrow> 1 | i # is \<Rightarrow> fold max is i + 1) (s + 1)"

definition category_rows :: "db \<Rightarrow> category_row list" where
  "category_rows d = (case tbl_categories d of None \<Rightarrow> [] | Some t \<Rightarrow> t_rows t)"

definition seller_rows :: "db \<Rightarrow> seller_row list" where
  "seller_rows d = (case tbl_sellers d of None \<Rightarrow> [] | Some t \<Rightarrow> t_rows t)"

definition product_rows :: "db \<Rightarrow> product_row list" where
  "product_rows d = (case tbl_products d of None \<Rightarrow> [] | Some t \<Rightarrow> t_rows t)"

subsection \<open>The SQL statements of the script\<close>

text \<open>\<^verbatim>\<open>CREATE TABLE IF NOT EXISTS\<close>: an existing table is left as it is.\<close>

definition create_if_not_exists :: "'r table option \<Rightarrow> 'r table option" where
  "create_if_not_exists t = (case t of None \<Rightarrow> Some new_table | Some t' \<Rightarrow> Some t')"

definition create_categories_if_not_exists :: "db \<Rightarrow> db" where
  "create_categories_if_not_exists d = d\<lparr>tbl_categories := create_if_not_exists (tbl_categories d)\<rparr>"

definition create_sellers_if_not_exists :: "db \<Rightarrow> db" where
  "create_sellers_if_not_exists d = d\<lparr>tbl_sellers := create_if_not_exists (tbl_sellers d)\<rparr>"

definition create_products_if_not_exists :: "db \<Rightarrow> db" where
  "create_products_if_not_exists d = d\<lparr>tbl_products := create_if_not_exists (tbl_products d)\<rparr>"

text \<open>
  \<^verbatim>\<open>INSERT OR IGNORE INTO categories (name, description, createdAt) VALUES (?, ?, ?)\<close>.
  The column \<open>name\<close> is \<^verbatim>\<open>UNIQUE\<close>: when a row with the name exists, no row is written.
  The row identifier has been drawn by then, so the sequence value moves on in both cases.
\<close>

definition category_row_of :: "string \<times> string \<times> int \<Rightarrow> int \<Rightarrow> category_row" where
  "category_row_of v i =
     (case v of (name, desc, now) \<Rightarrow>
        \<lparr>c_id = i, c_name = name, c_description = Some desc, c_createdAt = Some now\<rparr>)"

definition insert_or_ignore_category ::
  "string \<times> string \<times> int \<Rightarrow> category_row table \<Rightarrow> category_row table" where
  "insert_or_ignore_category v t =
     (let i = next_rowid (map c_id (t_rows t)) (t_seq t) in
      if fst v \<in> set (map c_name (t_rows t)) then t\<lparr>t_seq := i\<rparr>
      else \<lparr>t_rows = t_rows t @ [category_row_of v i], t_seq = i\<rparr>)"

text \<open>
  \<^verbatim>\<open>INSERT OR IGNORE INTO sellers (userId, storeName, description, whatsappPhone, rating,
  totalSales, createdAt, updatedAt) VALUES (?, ?, ?, ?, ?, ?, ?, ?)\<close>. The only uniqueness
  on this table is the primary key, which the statement does not supply, and the two
  \<^verbatim>\<open>NOT NULL\<close> columns receive values: there is no conflict to ignore.
\<close>

type_synonym seller_values =
  "int \<times> string \<times> string \<times> string \<times> rat \<times> int \<times> int \<times> int"

definition seller_row_of :: "seller_values \<Rightarrow> int \<Rightarrow> seller_row" where
  "seller_row_of v i =
     (case v of (user_id, store, desc, phone, rating, sales, created, updated) \<Rightarrow>
        \<lparr>s_id = i, s_userId = user_id, s_storeName = store,
         s_description = Some desc, s_whatsappPhone = Some phone,
         s_rating = Some rating, s_totalSales = Some sales,
         s_createdAt = Some created, s_updatedAt = Some updated\<rparr>)"

definition insert_or_ignore_seller :: "seller_values \<Rightarrow> seller_row table \<Rightarrow> seller_row table" where
  "insert_or_ignore_seller v t =
     (let i = next_rowid (map s_id (t_rows t)) (t_seq t) in
      \<lparr>t_rows = t_rows t @ [seller_row_of v i], t_seq = i\<rparr>)"

text \<open>\<^verbatim>\<open>INSERT INTO products (sellerId, categoryId, name, description, price, imageUrl,
  stock, source, createdAt, updatedAt) VALUES (?, ?, ?, ?, ?, ?, ?, ?, ?, ?)\<close>, for one
  tuple of the batch.\<close>

type_synonym product_values =
  "int \<times> int \<times> string \<times> string \<times> string \<times> string \<times> int \<times> string \<times> int \<times> int"

definition product_row_of :: "product_values \<Rightarrow> int \<Rightarrow> product_row" where
  "product_row_of v i =
     (case v of
        (seller_id, cat_id, name, desc, price, image_url, stock, source, created, updated) \<Rightarrow>
        \<lparr>p_id = i, p_sellerId = seller_id, p_categoryId = cat_id,
         p_name = name, p_description = Some desc, p_price = price,
         p_imageUrl = Some image_url, p_stock = Some stock,
         p_source = Some source, p_createdAt = Some created,
         p_updatedAt = Some updated\<rparr>)"

definition insert_product :: "product_values \<Rightarrow> product_row table \<Rightarrow> product_row table" where
  "insert_product v t =
     (let i = next_rowid (map p_id (t_rows t)) (t_seq t) in
      \<lparr>t_rows = t_rows t @ [product_row_of v i], t_seq = i\<rparr>)"

text \<open>A statement on a table that does not exist is an error of the store.\<close>

definition into_categories ::
  "(category_row table \<Rightarrow> category_row table) \<Rightarrow> db \<Rightarrow> error + db" where
  "into_categories stmt d =
     (case tbl_categories d of
        None \<Rightarrow> Inl (OperationalError ''no such table: categories'')
      | Some t \<Rightarrow> Inr (d\<lparr>tbl_categories := Some (stmt t)\<rparr>))"

definition into_sellers ::
  "(seller_row table \<Rightarrow> seller_row table) \<Rightarrow> db \<Rightarrow> error + db" where
  "into_sellers stmt d =
     (case tbl_sellers d of
        None \<Rightarrow> Inl (OperationalError ''no such table: sellers'')
      | Some t \<Rightarrow> Inr (d\<lparr>tbl_sellers := Some (stmt t)\<rparr>))"

definition into_products ::
  "(product_row table \<Rightarrow> product_row table) \<Rightarrow> db \<Rightarrow> error + db" where
  "into_products stmt d =
     (case tbl_products d of
        None \<Rightarrow> Inl (OperationalError ''no such table: products'')
      | Some t \<Rightarrow> Inr (d\<lparr>tbl_products := Some (stmt t)\<rparr>))"

text \<open>\<^verbatim>\<open>SELECT id, name FROM categories\<close>.\<close>

definition select_id_name_categories :: "db \<Rightarrow> error + (int \<times> string) list" where
  "select_id_name_categories d =
     (case tbl_categories d of
        None \<Rightarrow> Inl (OperationalError ''no such table: categories'')
      | Some t \<Rightarrow> Inr (map (\<lambda>r. (c_id r, c_name r)) (t_rows t)))"

text \<open>Sequencing: an exception ends the run, a value goes to the next statement.\<close>

definition and_then :: "error + 'a \<Rightarrow> ('a \<Rightarrow> error + 'b) \<Rightarrow> error + 'b" where
  "and_then r k = (case r of Inl e \<Rightarrow> Inl e | Inr x \<Rightarrow> k x)"

text \<open>A statement run once per element of a list; the first error ends the loop.\<close>

fun for_each :: "('a \<Rightarrow> 's \<Rightarrow> error + 's) \<Rightarrow> 'a list \<Rightarrow> 's \<Rightarrow> error + 's" where
  "for_each f [] s = Inr s"
| "for_each f (x # xs) s =
     (case f x s of Inl e \<Rightarrow> Inl e | Inr s' \<Rightarrow> for_each f xs s')"

subsection \<open>The connection\<close>

text \<open>
  \<^verbatim>\<open>sqlite3.connect(db_path)\<close> is called with the module's defaults. Under them the module
  opens a transaction by itself before an \<^verbatim>\<open>INSERT\<close> and leaves it open until
  \<^verbatim>\<open>commit()\<close>; a \<^verbatim>\<open>CREATE TABLE\<close> outside a transaction takes effect in the file at
  once. \<open>disk\<close> is what the database file durably holds, \<open>view\<close> is what the statements of
  this connection read and write.
\<close>

record connection =
  disk :: db
  view :: db
  in_transaction :: bool

definition connect :: "db \<Rightarrow> connection" where
  "connect d = \<lparr>disk = d, view = d, in_transaction = False\<rparr>"

definition execute_create :: "(db \<Rightarrow> db) \<Rightarrow> connection \<Rightarrow> connection" where
  "execute_create stmt conn =
     (if in_transaction conn then conn\<lparr>view := stmt (view conn)\<rparr>
      else conn\<lparr>disk := stmt (view conn), view := stmt (view conn)\<rparr>)"

definition execute_insert :: "(db \<Rightarrow> error + db) \<Rightarrow> connection \<Rightarrow> error + connection" where
  "execute_insert stmt conn =
     (case stmt (view conn) of
        Inl e \<Rightarrow> Inl e
      | Inr d \<Rightarrow> Inr (conn\<lparr>view := d, in_transaction := True\<rparr>))"

definition executemany_insert ::
  "('a \<Rightarrow> db \<Rightarrow> error + db) \<Rightarrow> 'a list \<Rightarrow> connection \<Rightarrow> error + connection" where
  "executemany_insert stmt vs conn = for_each (\<lambda>v. execute_insert (stmt v)) vs conn"

definition fetchall_id_name :: "connection \<Rightarrow> error + (int \<times> string) list" where
  "fetchall_id_name conn = select_id_name_categories (view conn)"

definition commit :: "connection \<Rightarrow> connection" where
  "commit conn = conn\<lparr>disk := view conn, in_transaction := False\<rparr>"

text \<open>Closing the connection, or the death of the process, leaves the file with what
  was committed.\<close>

definition close :: "connection \<Rightarrow> db" where
  "close conn = disk conn"

subsection \<open>The phases of \<^verbatim>\<open>seed\<close>\<close>

definition ensure_tables :: "connection \<Rightarrow> connection" where
  "ensure_tables conn =
     execute_create create_products_if_not_exists
       (execute_create create_sellers_if_not_exists
         (execute_create create_categories_if_not_exists conn))"

definition seed_categories :: "int \<Rightarrow> connection \<Rightarrow> error + connection" where
  "seed_categories now conn =
     for_each (\<lambda>c. case c of (name, desc) \<Rightarrow>
                 execute_insert (into_categories (insert_or_ignore_category (name, desc, now))))
       CATEGORIES conn"

definition seed_sellers :: "int \<Rightarrow> connection \<Rightarrow> error + connection" where
  "seed_sellers now conn =
     for_each (\<lambda>s. case s of (user_id, store, desc, phone, rating, sales) \<Rightarrow>
                 execute_insert
                   (into_sellers
                     (insert_or_ignore_seller
                       (user_id, store, desc, phone, rating, sales, now, now))))
       SELLERS conn"

text \<open>The dictionary comprehension: a later row with the same name replaces an earlier
  one.\<close>

definition build_category_map :: "(int \<times> string) list \<Rightarrow> (string \<rightharpoonup> int)" where
  "build_category_map rs = fold (\<lambda>r m. case r of (i, name) \<Rightarrow> m(name \<mapsto> i)) rs Map.empty"

definition category_names :: "string list" where
  "category_names = map fst CATEGORIES"

definition product_tuple :: "(string \<rightharpoonup> int) \<Rightarrow> int \<Rightarrow> int \<Rightarrow> error + product_values" where
  "product_tuple category_map now i =
     (case py_getitem category_names (i mod int (length category_names)) of
        Inl e \<Rightarrow> Inl e
      | Inr cat_name \<Rightarrow>
          (case category_map cat_name of
             None \<Rightarrow> Inl (KeyError cat_name)
           | Some cat_id \<Rightarrow>
               Inr (i mod int (length SELLERS) + 1,
                    cat_id,
                    cat_name @ '' Item '' @ str (i + 1),
                    ''High-quality '' @ cat_name @
                      '' from authentic Kenyan markets. Perfect for your needs.'',
                    str (1000 + (i mod 50) * 100),
                    ''https://images.unsplash.com/photo-'' @
                      str (1500000000000 + i * 1000000) @ ''?w=500&h=500&fit=crop'',
                    5 + i mod 20,
                    ''nairobi_market'',
                    now,
                    now)))"

fun build_products ::
  "(string \<rightharpoonup> int) \<Rightarrow> int \<Rightarrow> int list \<Rightarrow> product_values list \<Rightarrow> error + product_values list" where
  "build_products category_map now [] products = Inr products"
| "build_products category_map now (i # is) products =
     (case product_tuple category_map now i of
        Inl e \<Rightarrow> Inl e
      | Inr p \<Rightarrow> build_products category_map now is (products @ [p]))"

subsection \<open>\<^verbatim>\<open>seed\<close>\<close>

text \<open>
  A run takes the content of the database file and the clock reading, and gives the
  content of the file after \<^verbatim>\<open>conn.close()\<close>, or the exception that ended the run.
\<close>

definition seed :: "db \<Rightarrow> int \<Rightarrow> error + db" where
  "seed d now =
     and_then (seed_categories now (ensure_tables (connect d))) (\<lambda>conn.
     and_then (seed_sellers now conn) (\<lambda>conn.
     and_then (fetchall_id_name conn) (\<lambda>fetched.
     and_then (build_products (build_category_map fetched) now (py_range 1184) []) (\<lambda>products.
     and_then (executemany_insert (\<lambda>p. into_products (insert_product p)) products conn) (\<lambda>conn.
     Inr (close (commit conn)))))))"



subsection \<open>Notions used to state the properties\<close>

text \<open>The table that the statements of a run find once \<^verbatim>\<open>CREATE TABLE IF NOT EXISTS\<close>
  has run: the table of the file, or a new one.\<close>

definition table_of :: "'r table option \<Rightarrow> 'r table" where
  "table_of t = (case t of None \<Rightarrow> new_table | Some t' \<Rightarrow> t')"

text \<open>The categories table after the category phase, the sellers table after the seller
  phase, and the dictionary that the script builds from the categories table.\<close>

definition categories_after :: "int \<Rightarrow> category_row table \<Rightarrow> category_row table" where
  "categories_after now t =
     fold (\<lambda>c. insert_or_ignore_category (fst c, snd c, now)) CATEGORIES t"

definition seller_values_of ::
  "int \<Rightarrow> int \<times> string \<times> string \<times> string \<times> rat \<times> int \<Rightarrow> seller_values" where
  "seller_values_of now s =
     (case s of (user_id, store, desc, phone, rating, sales) \<Rightarrow>
        (user_id, store, desc, phone, rating, sales, now, now))"

definition sellers_after :: "int \<Rightarrow> seller_row table \<Rightarrow> seller_row table" where
  "sellers_after now t =
     fold (\<lambda>s. insert_or_ignore_seller (seller_values_of now s)) SELLERS t"

definition category_map_after :: "db \<Rightarrow> int \<Rightarrow> (string \<rightharpoonup> int)" where
  "category_map_after d now =
     build_category_map
       (map (\<lambda>r. (c_id r, c_name r))
          (t_rows (categories_after now (table_of (tbl_categories d)))))"

text \<open>The row that product index \<open>k\<close> becomes, up to its identifier and category identifier.\<close>

definition product_row_at :: "int \<Rightarrow> nat \<Rightarrow> int \<Rightarrow> int \<Rightarrow> product_row" where
  "product_row_at now k cid i =
     \<lparr>p_id = i, p_sellerId = int k mod 5 + 1, p_categoryId = cid,
      p_name = category_names ! (k mod 8) @ '' Item '' @ str (int k + 1),
      p_description = Some (''High-quality '' @ category_names ! (k mod 8) @
         '' from authentic Kenyan markets. Perfect for your needs.''),
      p_price = str (1000 + (int k mod 50) * 100),
      p_imageUrl = Some (''https://images.unsplash.com/photo-'' @
         str (1500000000000 + int k * 1000000) @ ''?w=500&h=500&fit=crop''),
      p_stock = Some (5 + int k mod 20),
      p_source = Some ''nairobi_market'',
      p_createdAt = Some now, p_updatedAt = Some now\<rparr>"




text \<open>The names of the category rows that a product row's \<open>categoryId\<close> resolves to.\<close>

definition category_of :: "db \<Rightarrow> product_row \<Rightarrow> string list" where
  "category_of d p = map c_name (filter (\<lambda>c. c_id c = p_categoryId p) (category_rows d))"

text \<open>A store that holds the eight category names, written by somebody else, and one more
  category.\<close>

definition store_with_categories :: db where
  "store_with_categories =
     \<lparr>tbl_categories = Some
        \<lparr>t_rows =
           map2 (\<lambda>i n. \<lparr>c_id = i, c_name = n, c_description = None, c_createdAt = None\<rparr>)
             [1, 2, 3, 4, 5, 6, 7, 8, 9]
             (''Books'' # category_names),
         t_seq = 9\<rparr>,
      tbl_sellers = None, tbl_products = None\<rparr>"

text \<open>A store that a run has filled and whose three tables were then emptied with
  \<^verbatim>\<open>DELETE FROM\<close>: the rows are gone, the sequence values stay.\<close>

definition cleared_store :: db where
  "cleared_store =
     \<lparr>tbl_categories = Some \<lparr>t_rows = [], t_seq = 8\<rparr>,
      tbl_sellers = Some \<lparr>t_rows = [], t_seq = 5\<rparr>,
      tbl_products = Some \<lparr>t_rows = [], t_seq = 1184\<rparr>\<rparr>"


section \<open>Properties of the model\<close>

subsection \<open>Loops over statements\<close>

lemma for_each_execute_insert:
  "for_each (\<lambda>x. execute_insert (f x)) xs conn =
     (case for_each f xs (view conn) of
        Inl e \<Rightarrow> Inl e
      | Inr v \<Rightarrow> Inr (conn\<lparr>view := v, in_transaction := in_transaction conn \<or> xs \<noteq> []\<rparr>))"
proof (induction xs arbitrary: conn)
  case Nil
  show ?case by simp
next
  case (Cons x xs)
  have step: "execute_insert (f x) conn =
      (case f x (view conn) of Inl e \<Rightarrow> Inl e
       | Inr d \<Rightarrow> Inr (conn\<lparr>view := d, in_transaction := True\<rparr>))"
    by (simp add: execute_insert_def)
  show ?case
    by (simp add: step Cons.IH split: sum.splits)
qed

lemma for_each_into_categories:
  "tbl_categories d = Some t \<Longrightarrow>
   for_each (\<lambda>x. into_categories (f x)) xs d = Inr (d\<lparr>tbl_categories := Some (fold f xs t)\<rparr>)"
proof (induction xs arbitrary: d t)
  case Nil
  then show ?case by (cases d) simp
next
  case (Cons x xs)
  then show ?case by (simp add: into_categories_def)
qed

lemma for_each_into_sellers:
  "tbl_sellers d = Some t \<Longrightarrow>
   for_each (\<lambda>x. into_sellers (f x)) xs d = Inr (d\<lparr>tbl_sellers := Some (fold f xs t)\<rparr>)"
proof (induction xs arbitrary: d t)
  case Nil
  then show ?case by (cases d) simp
next
  case (Cons x xs)
  then show ?case by (simp add: into_sellers_def)
qed

lemma for_each_into_products:
  "tbl_products d = Some t \<Longrightarrow>
   for_each (\<lambda>x. into_products (f x)) xs d = Inr (d\<lparr>tbl_products := Some (fold f xs t)\<rparr>)"
proof (induction xs arbitrary: d t)
  case Nil
  then show ?case by (cases d) simp
next
  case (Cons x xs)
  then show ?case by (simp add: into_products_def)
qed

lemma ensure_tables_connect:
  "ensure_tables (connect d) =
     \<lparr>disk = \<lparr>tbl_categories = Some (table_of (tbl_categories d)),
              tbl_sellers = Some (table_of (tbl_sellers d)),
              tbl_products = Some (table_of (tbl_products d))\<rparr>,
      view = \<lparr>tbl_categories = Some (table_of (tbl_categories d)),
              tbl_sellers = Some (table_of (tbl_sellers d)),
              tbl_products = Some (table_of (tbl_products d))\<rparr>,
      in_transaction = False\<rparr>"
  by (cases d)
     (simp add: ensure_tables_def connect_def execute_create_def table_of_def
        create_categories_if_not_exists_def create_sellers_if_not_exists_def
        create_products_if_not_exists_def create_if_not_exists_def split: option.splits)

lemma CATEGORIES_not_Nil: "CATEGORIES \<noteq> []"
  by (simp add: CATEGORIES_def)

lemma SELLERS_not_Nil: "SELLERS \<noteq> []"
  by (simp add: SELLERS_def)

lemma seed_categories_eq:
  assumes "tbl_categories (view conn) = Some t"
  shows "seed_categories now conn =
     Inr (conn\<lparr>view := (view conn)\<lparr>tbl_categories := Some (categories_after now t)\<rparr>,
               in_transaction := True\<rparr>)"
proof -
  have "seed_categories now conn =
      for_each (\<lambda>c. execute_insert
                  (into_categories (insert_or_ignore_category (fst c, snd c, now))))
        CATEGORIES conn"
    by (simp add: seed_categories_def case_prod_beta)
  also have "\<dots> = Inr (conn\<lparr>view := (view conn)\<lparr>tbl_categories := Some (categories_after now t)\<rparr>,
               in_transaction := True\<rparr>)"
    by (simp add: for_each_execute_insert
          [where f = "\<lambda>c. into_categories (insert_or_ignore_category (fst c, snd c, now))"]
        for_each_into_categories
          [OF assms, where f = "\<lambda>c. insert_or_ignore_category (fst c, snd c, now)"]
        categories_after_def CATEGORIES_not_Nil)
  finally show ?thesis .
qed

lemma seed_sellers_eq:
  assumes "tbl_sellers (view conn) = Some t"
  shows "seed_sellers now conn =
     Inr (conn\<lparr>view := (view conn)\<lparr>tbl_sellers := Some (sellers_after now t)\<rparr>,
               in_transaction := True\<rparr>)"
proof -
  have "seed_sellers now conn =
      for_each (\<lambda>s. execute_insert
                  (into_sellers (insert_or_ignore_seller (seller_values_of now s))))
        SELLERS conn"
    by (simp add: seed_sellers_def seller_values_of_def case_prod_beta)
  also have "\<dots> = Inr (conn\<lparr>view := (view conn)\<lparr>tbl_sellers := Some (sellers_after now t)\<rparr>,
               in_transaction := True\<rparr>)"
    by (simp add: for_each_execute_insert
          [where f = "\<lambda>s. into_sellers (insert_or_ignore_seller (seller_values_of now s))"]
        for_each_into_sellers
          [OF assms, where f = "\<lambda>s. insert_or_ignore_seller (seller_values_of now s)"]
        sellers_after_def SELLERS_not_Nil)
  finally show ?thesis .
qed

lemma executemany_products_eq:
  assumes "tbl_products (view conn) = Some t"
  shows "executemany_insert (\<lambda>p. into_products (insert_product p)) ps conn =
     Inr (conn\<lparr>view := (view conn)\<lparr>tbl_products := Some (fold insert_product ps t)\<rparr>,
               in_transaction := in_transaction conn \<or> ps \<noteq> []\<rparr>)"
  by (simp add: executemany_insert_def
        for_each_execute_insert [where f = "\<lambda>p. into_products (insert_product p)"]
        for_each_into_products [OF assms, where f = insert_product])

subsection \<open>Python helpers\<close>

lemma py_getitem_mod:
  "xs \<noteq> [] \<Longrightarrow>
   py_getitem xs (i mod int (length xs)) = Inr (xs ! nat (i mod int (length xs)))"
proof -
  assume "xs \<noteq> []"
  then have pos: "0 < int (length xs)" by simp
  have "0 \<le> i mod int (length xs)" "i mod int (length xs) < int (length xs)"
    using pos by (rule pos_mod_sign, rule pos_mod_bound)
  then show ?thesis
    by (simp add: py_getitem_def)
qed

lemma length_category_names: "length category_names = 8"
  by (simp add: category_names_def CATEGORIES_def)

lemma length_SELLERS: "length SELLERS = 5"
  by (simp add: SELLERS_def)

lemma length_CATEGORIES: "length CATEGORIES = 8"
  by (simp add: CATEGORIES_def)

lemma distinct_category_names: "distinct category_names"
  by (simp add: category_names_def CATEGORIES_def)

lemma category_name_nth_in: "category_names ! nat (i mod 8) \<in> set category_names"
proof -
  have "nat (i mod 8) < length category_names"
    by (simp add: length_category_names nat_less_iff)
  then show ?thesis by (rule nth_mem)
qed

lemma product_tuple_Inr:
  assumes "product_tuple m now i = Inr p"
  shows "\<exists>cat_id. m (category_names ! nat (i mod 8)) = Some cat_id \<and>
     p = (i mod 5 + 1, cat_id,
          category_names ! nat (i mod 8) @ '' Item '' @ str (i + 1),
          ''High-quality '' @ category_names ! nat (i mod 8) @
            '' from authentic Kenyan markets. Perfect for your needs.'',
          str (1000 + (i mod 50) * 100),
          ''https://images.unsplash.com/photo-'' @
            str (1500000000000 + i * 1000000) @ ''?w=500&h=500&fit=crop'',
          5 + i mod 20, ''nairobi_market'', now, now)"
proof -
  have ne: "category_names \<noteq> []"
    using length_category_names by auto
  have g: "py_getitem category_names (i mod int (length category_names)) =
      Inr (category_names ! nat (i mod 8))"
    using py_getitem_mod [OF ne, of i] by (simp add: length_category_names)
  show ?thesis
    using assms unfolding product_tuple_def g
    by (auto simp: length_SELLERS split: option.splits)
qed

lemma product_tuple_ok:
  assumes "\<And>n. n \<in> set category_names \<Longrightarrow> m n \<noteq> None"
  shows "\<exists>p. product_tuple m now i = Inr p"
proof -
  have ne: "category_names \<noteq> []"
    using length_category_names by auto
  have g: "py_getitem category_names (i mod int (length category_names)) =
      Inr (category_names ! nat (i mod 8))"
    using py_getitem_mod [OF ne, of i] by (simp add: length_category_names)
  from assms [OF category_name_nth_in [of i]]
  obtain c where "m (category_names ! nat (i mod 8)) = Some c" by auto
  then show ?thesis
    unfolding product_tuple_def g by simp
qed

lemma build_products_ok:
  assumes "\<And>i. \<exists>p. product_tuple m now i = Inr p"
  shows "\<exists>ps. build_products m now js acc = Inr (acc @ ps) \<and> length ps = length js \<and>
           (\<forall>k<length js. product_tuple m now (js ! k) = Inr (ps ! k))"
proof (induction js arbitrary: acc)
  case Nil
  show ?case by simp
next
  case (Cons j js)
  from assms obtain p where p: "product_tuple m now j = Inr p" by blast
  from Cons.IH [of "acc @ [p]"] obtain ps where
    ps: "build_products m now js (acc @ [p]) = Inr ((acc @ [p]) @ ps)"
        "length ps = length js"
        "\<forall>k<length js. product_tuple m now (js ! k) = Inr (ps ! k)"
    by blast
  have "\<forall>k<length (j # js). product_tuple m now ((j # js) ! k) = Inr ((p # ps) ! k)"
    using p ps(3) by (auto simp: nth_Cons split: nat.splits)
  then show ?case
    using p ps(1,2) by (intro exI [of _ "p # ps"]) simp
qed

lemma build_category_map_Some:
  "fold (\<lambda>r m. case r of (i, name) \<Rightarrow> m(name \<mapsto> i)) rs m n = Some i \<Longrightarrow>
   (i, n) \<in> set rs \<or> m n = Some i"
proof (induction rs arbitrary: m)
  case Nil
  then show ?case by simp
next
  case (Cons r rs)
  obtain a b where r: "r = (a, b)" by (cases r)
  have step: "fold (\<lambda>r m. case r of (i, name) \<Rightarrow> m(name \<mapsto> i)) (r # rs) m =
      fold (\<lambda>r m. case r of (i, name) \<Rightarrow> m(name \<mapsto> i)) rs (m(b \<mapsto> a))"
    by (simp add: r)
  from Cons.prems have "fold (\<lambda>r m. case r of (i, name) \<Rightarrow> m(name \<mapsto> i)) rs (m(b \<mapsto> a)) n = Some i"
    unfolding step .
  from Cons.IH [OF this] have "(i, n) \<in> set rs \<or> (m(b \<mapsto> a)) n = Some i" .
  then show ?case
    by (auto simp: r split: if_splits)
qed

lemma build_category_map_dom:
  "n \<in> snd ` set rs \<or> m n \<noteq> None \<Longrightarrow>
   fold (\<lambda>r m. case r of (i, name) \<Rightarrow> m(name \<mapsto> i)) rs m n \<noteq> None"
proof (induction rs arbitrary: m)
  case Nil
  then show ?case by simp
next
  case (Cons r rs)
  obtain a b where r: "r = (a, b)" by (cases r)
  have step: "fold (\<lambda>r m. case r of (i, name) \<Rightarrow> m(name \<mapsto> i)) (r # rs) m =
      fold (\<lambda>r m. case r of (i, name) \<Rightarrow> m(name \<mapsto> i)) rs (m(b \<mapsto> a))"
    by (simp add: r)
  from Cons.prems have "n \<in> snd ` set rs \<or> (m(b \<mapsto> a)) n \<noteq> None"
    by (auto simp: r)
  from Cons.IH [of "m(b \<mapsto> a)", OF this] show ?case
    unfolding step .
qed

subsection \<open>Tables under the inserts\<close>

lemma rows_insert_or_ignore_seller:
  "t_rows (insert_or_ignore_seller v t) =
     t_rows t @ [seller_row_of v (next_rowid (map s_id (t_rows t)) (t_seq t))]"
  by (simp add: insert_or_ignore_seller_def Let_def)

lemma rows_insert_product:
  "t_rows (insert_product v t) =
     t_rows t @ [product_row_of v (next_rowid (map p_id (t_rows t)) (t_seq t))]"
  by (simp add: insert_product_def Let_def)

lemma rows_insert_or_ignore_category:
  "t_rows (insert_or_ignore_category v t) =
     (if fst v \<in> c_name ` set (t_rows t) then t_rows t
      else t_rows t @ [category_row_of v (next_rowid (map c_id (t_rows t)) (t_seq t))])"
  by (simp add: insert_or_ignore_category_def Let_def)

lemma category_row_of_sel [simp]:
  "c_name (category_row_of v i) = fst v"
  "c_createdAt (category_row_of v i) = Some (snd (snd v))"
  "c_id (category_row_of v i) = i"
  by (simp_all add: category_row_of_def case_prod_beta)

lemma categories_fold_rows:
  "\<exists>ext. t_rows (fold (\<lambda>c. insert_or_ignore_category (fst c, snd c, now)) cs t) = t_rows t @ ext \<and>
         (\<forall>r\<in>set ext. c_createdAt r = Some now \<and> c_name r \<in> fst ` set cs)"
proof (induction cs rule: rev_induct)
  case Nil
  show ?case by simp
next
  case (snoc c cs)
  then obtain ext where
    ext: "t_rows (fold (\<lambda>c. insert_or_ignore_category (fst c, snd c, now)) cs t) = t_rows t @ ext"
         "\<forall>r\<in>set ext. c_createdAt r = Some now \<and> c_name r \<in> fst ` set cs"
    by blast
  show ?case
    using ext by (auto simp: rows_insert_or_ignore_category)
qed

lemma categories_fold_names:
  "fst ` set cs \<subseteq>
   c_name ` set (t_rows (fold (\<lambda>c. insert_or_ignore_category (fst c, snd c, now)) cs t))"
proof (induction cs rule: rev_induct)
  case Nil
  show ?case by simp
next
  case (snoc c cs)
  then show ?case
    by (auto simp: rows_insert_or_ignore_category)
qed

lemma categories_fold_present:
  "fst ` set cs \<subseteq> c_name ` set (t_rows t) \<Longrightarrow>
   t_rows (fold (\<lambda>c. insert_or_ignore_category (fst c, snd c, now)) cs t) = t_rows t"
proof (induction cs rule: rev_induct)
  case Nil
  show ?case by simp
next
  case (snoc c cs)
  then show ?case
    by (auto simp: rows_insert_or_ignore_category)
qed

lemma categories_fold_fresh:
  "distinct (map fst cs) \<Longrightarrow> fst ` set cs \<inter> c_name ` set (t_rows t) = {} \<Longrightarrow>
   map c_name (t_rows (fold (\<lambda>c. insert_or_ignore_category (fst c, snd c, now)) cs t)) =
     map c_name (t_rows t) @ map fst cs"
proof (induction cs rule: rev_induct)
  case Nil
  show ?case by simp
next
  case (snoc c cs)
  then have IH: "map c_name (t_rows (fold (\<lambda>c. insert_or_ignore_category (fst c, snd c, now)) cs t)) =
     map c_name (t_rows t) @ map fst cs"
    by auto
  have "fst c \<notin> set (map c_name (t_rows t) @ map fst cs)"
    using snoc.prems by auto
  then have "fst c \<notin> c_name ` set (t_rows (fold (\<lambda>c. insert_or_ignore_category (fst c, snd c, now)) cs t))"
    unfolding IH [symmetric] by simp
  then show ?case
    using IH by (simp add: rows_insert_or_ignore_category)
qed

lemma seller_row_of_sel [simp]:
  "s_createdAt (seller_row_of (seller_values_of now s) i) = Some now"
  "s_updatedAt (seller_row_of (seller_values_of now s) i) = Some now"
  "s_id (seller_row_of v i) = i"
  by (simp_all add: seller_row_of_def seller_values_of_def case_prod_beta)

lemma sellers_fold_rows:
  "\<exists>ext. t_rows (fold (\<lambda>s. insert_or_ignore_seller (seller_values_of now s)) ss t) = t_rows t @ ext \<and>
         length ext = length ss \<and>
         (\<forall>r\<in>set ext. s_createdAt r = Some now \<and> s_updatedAt r = Some now)"
proof (induction ss rule: rev_induct)
  case Nil
  show ?case by simp
next
  case (snoc s ss)
  then obtain ext where
    ext: "t_rows (fold (\<lambda>s. insert_or_ignore_seller (seller_values_of now s)) ss t) = t_rows t @ ext"
         "length ext = length ss"
         "\<forall>r\<in>set ext. s_createdAt r = Some now \<and> s_updatedAt r = Some now"
    by blast
  let ?r = "seller_row_of (seller_values_of now s)
      (next_rowid (map s_id (t_rows (fold (\<lambda>s. insert_or_ignore_seller (seller_values_of now s)) ss t)))
         (t_seq (fold (\<lambda>s. insert_or_ignore_seller (seller_values_of now s)) ss t)))"
  have "t_rows (fold (\<lambda>s. insert_or_ignore_seller (seller_values_of now s)) (ss @ [s]) t) =
          t_rows t @ (ext @ [?r])"
    using ext(1) by (simp add: rows_insert_or_ignore_seller)
  moreover have "length (ext @ [?r]) = length (ss @ [s])"
    using ext(2) by simp
  moreover have "\<forall>r\<in>set (ext @ [?r]). s_createdAt r = Some now \<and> s_updatedAt r = Some now"
    using ext(3) by simp
  ultimately show ?case by blast
qed

lemma products_fold_rows:
  "\<exists>ids. length ids = length ps \<and>
     t_rows (fold insert_product ps t) = t_rows t @ map2 product_row_of ps ids"
proof (induction ps rule: rev_induct)
  case Nil
  show ?case by simp
next
  case (snoc p ps)
  then obtain ids where
    ids: "length ids = length ps"
         "t_rows (fold insert_product ps t) = t_rows t @ map2 product_row_of ps ids"
    by blast
  let ?i = "next_rowid (map p_id (t_rows (fold insert_product ps t)))
              (t_seq (fold insert_product ps t))"
  have "t_rows (fold insert_product (ps @ [p]) t) =
          t_rows t @ map2 product_row_of (ps @ [p]) (ids @ [?i])"
    using ids by (simp add: rows_insert_product)
  then show ?case
    using ids(1) by (intro exI [of _ "ids @ [?i]"]) simp
qed

subsection \<open>A run as a whole\<close>

lemma category_map_after_total:
  assumes "n \<in> set category_names"
  shows "category_map_after d now n \<noteq> None"
proof -
  let ?rows = "t_rows (categories_after now (table_of (tbl_categories d)))"
  from assms have "n \<in> fst ` set CATEGORIES"
    by (simp add: category_names_def)
  then have "n \<in> c_name ` set ?rows"
    using categories_fold_names [of CATEGORIES now "table_of (tbl_categories d)"]
    unfolding categories_after_def by blast
  then have "n \<in> snd ` set (map (\<lambda>r. (c_id r, c_name r)) ?rows)"
    by force
  then show ?thesis
    unfolding category_map_after_def build_category_map_def
    by (intro build_category_map_dom) simp
qed

lemma category_map_after_Some:
  assumes "category_map_after d now n = Some i"
  shows "\<exists>r\<in>set (t_rows (categories_after now (table_of (tbl_categories d)))).
           c_id r = i \<and> c_name r = n"
proof -
  from assms build_category_map_Some
    [of "map (\<lambda>r. (c_id r, c_name r)) (t_rows (categories_after now (table_of (tbl_categories d))))"
        Map.empty n i]
  have "(i, n) \<in> set (map (\<lambda>r. (c_id r, c_name r))
      (t_rows (categories_after now (table_of (tbl_categories d)))))"
    unfolding category_map_after_def build_category_map_def by simp
  then show ?thesis by auto
qed

lemma length_py_range: "length (py_range n) = n"
  by (simp add: py_range_def)

lemma nth_py_range: "k < n \<Longrightarrow> py_range n ! k = int k"
  by (simp add: py_range_def)

lemma seed_result:
  "\<exists>ps. seed d now =
      Inr \<lparr>tbl_categories = Some (categories_after now (table_of (tbl_categories d))),
           tbl_sellers = Some (sellers_after now (table_of (tbl_sellers d))),
           tbl_products = Some (fold insert_product ps (table_of (tbl_products d)))\<rparr> \<and>
     length ps = 1184 \<and>
     (\<forall>k<1184. product_tuple (category_map_after d now) now (int k) = Inr (ps ! k))"
proof -
  let ?tc = "table_of (tbl_categories d)"
  let ?ts = "table_of (tbl_sellers d)"
  let ?tp = "table_of (tbl_products d)"
  let ?m = "category_map_after d now"
  have "\<And>i. \<exists>p. product_tuple ?m now i = Inr p"
    by (rule product_tuple_ok) (rule category_map_after_total)
  from build_products_ok [of ?m now "py_range 1184" "[]", OF this]
  obtain ps where ps:
    "build_products ?m now (py_range 1184) [] = Inr ps"
    "length ps = 1184"
    "\<forall>k<1184. product_tuple ?m now (py_range 1184 ! k) = Inr (ps ! k)"
    by (auto simp: length_py_range)
  have nth: "\<forall>k<1184. product_tuple ?m now (int k) = Inr (ps ! k)"
    using ps(3) by (simp add: nth_py_range)
  have "seed d now =
      Inr \<lparr>tbl_categories = Some (categories_after now ?tc),
           tbl_sellers = Some (sellers_after now ?ts),
           tbl_products = Some (fold insert_product ps ?tp)\<rparr>"
    unfolding seed_def ensure_tables_connect
    using ps(1)
    by (simp add: and_then_def seed_categories_eq [where t = ?tc]
          seed_sellers_eq [where t = ?ts] fetchall_id_name_def
          select_id_name_categories_def category_map_after_def
          executemany_products_eq [where t = ?tp] commit_def close_def)
  with ps(2) nth show ?thesis by blast
qed


lemma rows_table_of:
  "t_rows (table_of (tbl_categories d)) = category_rows d"
  "t_rows (table_of (tbl_sellers d)) = seller_rows d"
  "t_rows (table_of (tbl_products d)) = product_rows d"
  by (simp_all add: table_of_def new_table_def category_rows_def seller_rows_def
        product_rows_def split: option.splits)

lemma seed_total: "\<exists>d'. seed d now = Inr d'"
  using seed_result [of d now] by blast

lemma seed_tables:
  assumes "seed d now = Inr d'"
  shows "tbl_categories d' = Some (categories_after now (table_of (tbl_categories d)))"
    and "tbl_sellers d' = Some (sellers_after now (table_of (tbl_sellers d)))"
    and "\<exists>tp. tbl_products d' = Some tp"
  using seed_result [of d now] assms by auto

lemma seed_category_rows:
  assumes "seed d now = Inr d'"
  shows "category_rows d' = t_rows (categories_after now (table_of (tbl_categories d)))"
  using seed_tables(1) [OF assms] by (simp add: category_rows_def)

lemma seed_categories_D:
  assumes "seed d now = Inr d'"
  shows "\<exists>cs. category_rows d' = category_rows d @ cs \<and>
           (\<forall>c\<in>set cs. c_createdAt c = Some now \<and> c_name c \<in> set category_names)"
  using categories_fold_rows [of now CATEGORIES "table_of (tbl_categories d)"]
  unfolding seed_category_rows [OF assms] categories_after_def rows_table_of category_names_def
  by simp

lemma seed_categories_present:
  assumes "seed d now = Inr d'"
    and "set category_names \<subseteq> c_name ` set (category_rows d)"
  shows "category_rows d' = category_rows d"
  using categories_fold_present [of CATEGORIES "table_of (tbl_categories d)" now] assms(2)
  unfolding seed_category_rows [OF assms(1)] categories_after_def rows_table_of category_names_def
  by simp

lemma seed_categories_fresh:
  assumes "seed d now = Inr d'" and "category_rows d = []"
  shows "map c_name (category_rows d') = category_names"
  using categories_fold_fresh [of CATEGORIES "table_of (tbl_categories d)" now]
    distinct_category_names assms(2)
  unfolding seed_category_rows [OF assms(1)] categories_after_def rows_table_of category_names_def
  by simp

lemma seed_sellers_D:
  assumes "seed d now = Inr d'"
  shows "\<exists>ss. seller_rows d' = seller_rows d @ ss \<and> length ss = 5 \<and>
           (\<forall>s\<in>set ss. s_createdAt s = Some now \<and> s_updatedAt s = Some now)"
proof -
  have "seller_rows d' = t_rows (sellers_after now (table_of (tbl_sellers d)))"
    using seed_tables(2) [OF assms] by (simp add: seller_rows_def)
  then show ?thesis
    using sellers_fold_rows [of now SELLERS "table_of (tbl_sellers d)"]
    unfolding sellers_after_def rows_table_of length_SELLERS by simp
qed

lemma nat_int_mod8: "nat (int k mod 8) = k mod 8"
  by (simp add: nat_mod_distrib)

lemma seed_products_D:
  assumes "seed d now = Inr d'"
  shows "\<exists>ps. product_rows d' = product_rows d @ ps \<and> length ps = 1184 \<and>
           (\<forall>k<1184. \<exists>cid i.
               category_map_after d now (category_names ! (k mod 8)) = Some cid \<and>
               ps ! k = product_row_at now k cid i)"
proof -
  from seed_result [of d now] assms obtain vs where
    d': "tbl_products d' = Some (fold insert_product vs (table_of (tbl_products d)))"
    and len: "length vs = 1184"
    and vs: "\<forall>k<1184. product_tuple (category_map_after d now) now (int k) = Inr (vs ! k)"
    by auto
  from products_fold_rows [of vs "table_of (tbl_products d)"] obtain ids where
    ids: "length ids = length vs"
      "t_rows (fold insert_product vs (table_of (tbl_products d))) =
         t_rows (table_of (tbl_products d)) @ map2 product_row_of vs ids"
    by blast
  let ?ps = "map2 product_row_of vs ids"
  have rows: "product_rows d' = product_rows d @ ?ps"
    using d' ids(2) by (simp add: product_rows_def rows_table_of)
  have "\<exists>cid i. category_map_after d now (category_names ! (k mod 8)) = Some cid \<and>
           ?ps ! k = product_row_at now k cid i" if k: "k < 1184" for k
  proof -
    from vs k have "product_tuple (category_map_after d now) now (int k) = Inr (vs ! k)"
      by blast
    from product_tuple_Inr [OF this] obtain cid where
      cid: "category_map_after d now (category_names ! (k mod 8)) = Some cid"
      and v: "vs ! k = (int k mod 5 + 1, cid,
          category_names ! (k mod 8) @ '' Item '' @ str (int k + 1),
          ''High-quality '' @ category_names ! (k mod 8) @
            '' from authentic Kenyan markets. Perfect for your needs.'',
          str (1000 + (int k mod 50) * 100),
          ''https://images.unsplash.com/photo-'' @
            str (1500000000000 + int k * 1000000) @ ''?w=500&h=500&fit=crop'',
          5 + int k mod 20, ''nairobi_market'', now, now)"
      unfolding nat_int_mod8 by blast
    have "?ps ! k = product_row_of (vs ! k) (ids ! k)"
      using k len ids(1) by simp
    then have "?ps ! k = product_row_at now k cid (ids ! k)"
      unfolding v product_row_of_def product_row_at_def by simp
    with cid show ?thesis by blast
  qed
  with rows len ids(1) show ?thesis
    by (intro exI [of _ ?ps]) simp
qed

lemma seed_category_reference:
  assumes "seed d now = Inr d'"
    and "category_map_after d now n = Some cid"
  shows "\<exists>c\<in>set (category_rows d'). c_id c = cid \<and> c_name c = n"
  using category_map_after_Some [OF assms(2)]
  unfolding seed_category_rows [OF assms(1)] .

lemma seed_lengths:
  assumes "seed d now = Inr d'"
  shows "length (seller_rows d') = length (seller_rows d) + 5"
    and "length (product_rows d') = length (product_rows d) + 1184"
  using seed_sellers_D [OF assms] seed_products_D [OF assms] by auto

lemma product_rows_empty_db: "product_rows empty_db = []"
  by (simp add: empty_db_def product_rows_def)


lemma categories_on_new_table:
  "map (\<lambda>c. (c_id c, c_name c)) (t_rows (categories_after now new_table)) =
     [(1, ''Shoes''), (2, ''Fashion''), (3, ''Furniture''), (4, ''Electronics''),
      (5, ''Accessories''), (6, ''Home Decor''), (7, ''Jewelry''), (8, ''Watches'')]"
  by (simp add: categories_after_def CATEGORIES_def insert_or_ignore_category_def
        new_table_def next_rowid_def category_row_of_def Let_def)

lemma category_of_pairs:
  "category_of d p =
     map snd (filter (\<lambda>x. fst x = p_categoryId p)
       (map (\<lambda>c. (c_id c, c_name c)) (category_rows d)))"
  by (simp add: category_of_def filter_map comp_def)

lemma category_map_on_empty_db:
  "category_map_after empty_db now ''Shoes'' = Some 1"
  "category_map_after empty_db now ''Watches'' = Some 8"
  by (simp_all add: category_map_after_def build_category_map_def empty_db_def table_of_def
        categories_on_new_table)

lemma category_rows_empty_db: "category_rows empty_db = []"
  by (simp add: empty_db_def category_rows_def)

lemma seller_rows_empty_db: "seller_rows empty_db = []"
  by (simp add: empty_db_def seller_rows_def)


lemma sellers_on_cleared_table:
  "map s_id (t_rows (sellers_after now \<lparr>t_rows = [], t_seq = 5\<rparr>)) = [6, 7, 8, 9, 10]"
  by (simp add: sellers_after_def SELLERS_def insert_or_ignore_seller_def next_rowid_def
        Let_def)

lemma sellers_on_new_table:
  "map s_id (t_rows (sellers_after now new_table)) = [1, 2, 3, 4, 5]"
  by (simp add: sellers_after_def SELLERS_def insert_or_ignore_seller_def next_rowid_def
        new_table_def Let_def)

lemma product_seller_ids:
  assumes "seed d now = Inr d'"
  shows "\<exists>ps. product_rows d' = product_rows d @ ps \<and> ps \<noteq> [] \<and>
           p_sellerId (hd ps) = 1 \<and> set (map p_sellerId ps) \<subseteq> {1..5}"
proof -
  from seed_products_D [OF assms] obtain ps where
    ps: "product_rows d' = product_rows d @ ps" "length ps = 1184"
      "\<forall>k<1184. \<exists>cid i.
          category_map_after d now (category_names ! (k mod 8)) = Some cid \<and>
          ps ! k = product_row_at now k cid i"
    by blast
  have "p_sellerId p \<in> {1..5}" if "p \<in> set ps" for p
  proof -
    from that ps(2) obtain k where k: "k < 1184" "p = ps ! k"
      by (auto simp: in_set_conv_nth)
    with ps(3) obtain cid i where "p = product_row_at now k cid i"
      by auto
    then have "p_sellerId p = int k mod 5 + 1"
      by (simp add: product_row_at_def)
    moreover have "0 \<le> int k mod 5" "int k mod 5 < 5" by simp_all
    ultimately show ?thesis by simp
  qed
  then have sub: "set (map p_sellerId ps) \<subseteq> {1..5}" by auto
  have ne: "ps \<noteq> []" using ps(2) by auto
  then have "hd ps = ps ! 0" by (simp add: hd_conv_nth)
  moreover from ps(3) obtain cid i where "ps ! 0 = product_row_at now 0 cid i"
    by force
  ultimately have "p_sellerId (hd ps) = 1"
    by (simp add: product_row_at_def)
  with ps(1) ne sub show ?thesis by blast
qed

lemma categories_on_cleared_table:
  "map (\<lambda>c. (c_id c, c_name c)) (t_rows (categories_after now \<lparr>t_rows = [], t_seq = 8\<rparr>)) =
     [(9, ''Shoes''), (10, ''Fashion''), (11, ''Furniture''), (12, ''Electronics''),
      (13, ''Accessories''), (14, ''Home Decor''), (15, ''Jewelry''), (16, ''Watches'')]"
  by (simp add: categories_after_def CATEGORIES_def insert_or_ignore_category_def
        next_rowid_def category_row_of_def Let_def)

text \<open>On the fresh file the sellers of the run receive the identifiers 1 to 5, and every
  product row refers to one of them.\<close>

lemma seller_reference_resolves_on_fresh_file:
  "\<exists>d'. seed empty_db now = Inr d' \<and>
     map s_id (seller_rows d') = [1, 2, 3, 4, 5] \<and>
     set (map p_sellerId (product_rows d')) \<subseteq> set (map s_id (seller_rows d'))"
proof -
  from seed_total obtain d' where d': "seed empty_db now = Inr d'" by blast
  have sel: "map s_id (seller_rows d') = [1, 2, 3, 4, 5]"
    using seed_tables(2) [OF d']
    by (simp add: seller_rows_def empty_db_def table_of_def sellers_on_new_table)
  from product_seller_ids [OF d'] obtain ps where
    "product_rows d' = ps" "set (map p_sellerId ps) \<subseteq> {1..5}"
    by (auto simp: product_rows_empty_db)
  moreover have "{1..5} = set [1, 2, 3, 4, 5::int]"
    by auto
  ultimately have "set (map p_sellerId (product_rows d')) \<subseteq> set (map s_id (seller_rows d'))"
    unfolding sel by simp
  with d' sel show ?thesis by (intro exI [of _ d']) simp
qed


section \<open>The claims\<close>

text \<open>
  \<^bold>\<open>C1.\<close> A run on a store without rows (the tables absent or empty) ends normally and
  leaves exactly 8 category rows, 5 seller rows and 1184 product rows; a second run on the
  resulting store, with nothing cleared in between, leaves exactly 2368 product rows.
\<close>

theorem seed_on_empty_store_counts:
  assumes "category_rows d = []" and "seller_rows d = []" and "product_rows d = []"
  shows "\<exists>d1 d2. seed d now1 = Inr d1 \<and>
           length (category_rows d1) = 8 \<and>
           length (seller_rows d1) = 5 \<and>
           length (product_rows d1) = 1184 \<and>
           seed d1 now2 = Inr d2 \<and>
           length (product_rows d2) = 2368"
proof -
  from seed_total obtain d1 where d1: "seed d now1 = Inr d1" by blast
  from seed_total obtain d2 where d2: "seed d1 now2 = Inr d2" by blast
  have "length (map c_name (category_rows d1)) = length category_names"
    using seed_categories_fresh [OF d1 assms(1)] by simp
  then have c: "length (category_rows d1) = 8"
    by (simp add: length_category_names)
  have s: "length (seller_rows d1) = 5" and p: "length (product_rows d1) = 1184"
    using seed_lengths [OF d1] assms by simp_all
  have "length (product_rows d2) = 2368"
    using seed_lengths(2) [OF d2] p by simp
  with d1 d2 c s p show ?thesis by blast
qed

theorem seed_on_empty_store_counts_witness:
  "category_rows empty_db = [] \<and> seller_rows empty_db = [] \<and> product_rows empty_db = [] \<and>
   (\<exists>d1 d2. seed empty_db 1700000000000 = Inr d1 \<and>
      length (category_rows d1) = 8 \<and>
      length (seller_rows d1) = 5 \<and>
      length (product_rows d1) = 1184 \<and>
      seed d1 1700000000001 = Inr d2 \<and>
      length (product_rows d2) = 2368)"
proof -
  have e: "category_rows empty_db = []" "seller_rows empty_db = []" "product_rows empty_db = []"
    by (simp_all add: empty_db_def category_rows_def seller_rows_def product_rows_def)
  show ?thesis
    using e seed_on_empty_store_counts [OF e, of 1700000000000 1700000000001] by simp
qed

text \<open>
  \<^bold>\<open>C2.\<close> A run on any store ends normally and appends 1184 product rows. For every
  index \<open>i < 1184\<close>, the category identifier of row \<open>i\<close> is the identifier of a category row
  of the store whose name is the name at position \<open>i mod 8\<close> of \<open>CATEGORIES\<close>, its seller
  identifier is \<open>(i mod 5) + 1\<close>, and its name is that category name, then \<open>'' Item ''\<close>, then
  the decimal numeral of \<open>i + 1\<close>.
\<close>

theorem product_category_seller_name:
  "\<exists>d' ps. seed d now = Inr d' \<and>
     product_rows d' = product_rows d @ ps \<and> length ps = 1184 \<and>
     (\<forall>i<1184.
        (\<exists>c\<in>set (category_rows d').
            c_name c = fst (CATEGORIES ! (i mod 8)) \<and> c_id c = p_categoryId (ps ! i)) \<and>
        p_sellerId (ps ! i) = int (i mod 5) + 1 \<and>
        p_name (ps ! i) = fst (CATEGORIES ! (i mod 8)) @ '' Item '' @ str (int i + 1))"
proof -
  from seed_total obtain d' where d': "seed d now = Inr d'" by blast
  from seed_products_D [OF d'] obtain ps where
    ps: "product_rows d' = product_rows d @ ps" "length ps = 1184"
      "\<forall>k<1184. \<exists>cid i.
          category_map_after d now (category_names ! (k mod 8)) = Some cid \<and>
          ps ! k = product_row_at now k cid i"
    by blast
  have "(\<exists>c\<in>set (category_rows d').
            c_name c = fst (CATEGORIES ! (i mod 8)) \<and> c_id c = p_categoryId (ps ! i)) \<and>
        p_sellerId (ps ! i) = int (i mod 5) + 1 \<and>
        p_name (ps ! i) = fst (CATEGORIES ! (i mod 8)) @ '' Item '' @ str (int i + 1)"
    if i: "i < 1184" for i
  proof -
    from ps(3) i obtain cid j where
      cid: "category_map_after d now (category_names ! (i mod 8)) = Some cid"
      and row: "ps ! i = product_row_at now i cid j"
      by blast
    have nm: "category_names ! (i mod 8) = fst (CATEGORIES ! (i mod 8))"
      by (simp add: category_names_def length_CATEGORIES)
    from seed_category_reference [OF d' cid]
    have "\<exists>c\<in>set (category_rows d').
            c_name c = fst (CATEGORIES ! (i mod 8)) \<and> c_id c = p_categoryId (ps ! i)"
      unfolding row nm by (auto simp: product_row_at_def)
    moreover have "p_sellerId (ps ! i) = int (i mod 5) + 1"
      unfolding row by (simp add: product_row_at_def zmod_int)
    moreover have "p_name (ps ! i) = fst (CATEGORIES ! (i mod 8)) @ '' Item '' @ str (int i + 1)"
      unfolding row by (simp add: product_row_at_def nm)
    ultimately show ?thesis by blast
  qed
  with d' ps(1,2) show ?thesis by blast
qed

theorem product_category_seller_name_witness:
  "(9::nat) < 1184 \<and>
   (\<exists>d'. seed empty_db 1700000000000 = Inr d' \<and>
      (\<exists>c\<in>set (category_rows d').
          c_name c = ''Fashion'' \<and> c_id c = p_categoryId (product_rows d' ! 9)) \<and>
      p_sellerId (product_rows d' ! 9) = 5 \<and>
      p_name (product_rows d' ! 9) = ''Fashion Item 10'')"
proof -
  from product_category_seller_name [of empty_db 1700000000000] obtain d' ps where
    d': "seed empty_db 1700000000000 = Inr d'"
    and ps: "product_rows d' = product_rows empty_db @ ps"
    and all: "\<forall>i<1184.
        (\<exists>c\<in>set (category_rows d').
            c_name c = fst (CATEGORIES ! (i mod 8)) \<and> c_id c = p_categoryId (ps ! i)) \<and>
        p_sellerId (ps ! i) = int (i mod 5) + 1 \<and>
        p_name (ps ! i) = fst (CATEGORIES ! (i mod 8)) @ '' Item '' @ str (int i + 1)"
    by blast
  have lt: "(9::nat) < 1184" by simp
  have eq: "product_rows d' = ps"
    using ps by (simp add: product_rows_empty_db)
  have c: "fst (CATEGORIES ! (9 mod 8)) = ''Fashion''"
    by (simp add: CATEGORIES_def)
  have s: "str (int 9 + 1) = ''10''"
    by (simp add: str_def str_nat.simps)
  from all lt have
     "(\<exists>c\<in>set (category_rows d').
            c_name c = fst (CATEGORIES ! (9 mod 8)) \<and> c_id c = p_categoryId (ps ! 9)) \<and>
        p_sellerId (ps ! 9) = int (9 mod 5) + 1 \<and>
        p_name (ps ! 9) = fst (CATEGORIES ! (9 mod 8)) @ '' Item '' @ str (int 9 + 1)"
    by blast
  then have
     "(\<exists>c\<in>set (category_rows d').
          c_name c = ''Fashion'' \<and> c_id c = p_categoryId (product_rows d' ! 9)) \<and>
      p_sellerId (product_rows d' ! 9) = 5 \<and>
      p_name (product_rows d' ! 9) = ''Fashion Item 10''"
    unfolding eq c s by simp
  with d' lt show ?thesis by blast
qed

text \<open>
  \<^bold>\<open>C3.\<close> A run on any store ends normally and appends 1184 product rows. For every
  index \<open>i < 1184\<close>, the price of row \<open>i\<close> is the decimal numeral of
  \<open>1000 + (i mod 50) * 100\<close>, a number among 1000, 1100, ..., 5900, and its stock is
  \<open>5 + (i mod 20)\<close>, a number among 5, 6, ..., 24.
\<close>

theorem product_price_stock:
  "\<exists>d' ps. seed d now = Inr d' \<and>
     product_rows d' = product_rows d @ ps \<and> length ps = 1184 \<and>
     (\<forall>i<1184.
        p_price (ps ! i) = str (1000 + (int i mod 50) * 100) \<and>
        1000 + (int i mod 50) * 100 \<in> (\<lambda>k. 1000 + k * 100) ` {0..49} \<and>
        p_stock (ps ! i) = Some (5 + int i mod 20) \<and>
        5 + int i mod 20 \<in> {5..24})"
proof -
  from seed_total obtain d' where d': "seed d now = Inr d'" by blast
  from seed_products_D [OF d'] obtain ps where
    ps: "product_rows d' = product_rows d @ ps" "length ps = 1184"
      "\<forall>k<1184. \<exists>cid i.
          category_map_after d now (category_names ! (k mod 8)) = Some cid \<and>
          ps ! k = product_row_at now k cid i"
    by blast
  have "p_price (ps ! i) = str (1000 + (int i mod 50) * 100) \<and>
        1000 + (int i mod 50) * 100 \<in> (\<lambda>k. 1000 + k * 100) ` {0..49} \<and>
        p_stock (ps ! i) = Some (5 + int i mod 20) \<and>
        5 + int i mod 20 \<in> {5..24}"
    if i: "i < 1184" for i
  proof -
    from ps(3) i obtain cid j where row: "ps ! i = product_row_at now i cid j"
      by blast
    have "int i mod 50 \<in> {0..49}"
      by simp
    then have "1000 + (int i mod 50) * 100 \<in> (\<lambda>k. 1000 + k * 100) ` {0..49}"
      by (rule imageI)
    moreover have "5 + int i mod 20 \<in> {5..24}"
      by simp
    moreover have "p_price (ps ! i) = str (1000 + (int i mod 50) * 100)"
      "p_stock (ps ! i) = Some (5 + int i mod 20)"
      unfolding row by (simp_all add: product_row_at_def)
    ultimately show ?thesis by blast
  qed
  with d' ps(1,2) show ?thesis by blast
qed

theorem product_price_stock_witness:
  "(57::nat) < 1184 \<and>
   (\<exists>d'. seed empty_db 1700000000000 = Inr d' \<and>
      p_price (product_rows d' ! 57) = ''1700'' \<and>
      p_stock (product_rows d' ! 57) = Some 22)"
proof -
  from product_price_stock [of empty_db 1700000000000] obtain d' ps where
    d': "seed empty_db 1700000000000 = Inr d'"
    and ps: "product_rows d' = product_rows empty_db @ ps"
    and all: "\<forall>i<1184.
        p_price (ps ! i) = str (1000 + (int i mod 50) * 100) \<and>
        1000 + (int i mod 50) * 100 \<in> (\<lambda>k. 1000 + k * 100) ` {0..49} \<and>
        p_stock (ps ! i) = Some (5 + int i mod 20) \<and>
        5 + int i mod 20 \<in> {5..24}"
    by blast
  have lt: "(57::nat) < 1184" by simp
  have eq: "product_rows d' = ps"
    using ps by (simp add: product_rows_empty_db)
  have s: "str (1000 + (int 57 mod 50) * 100) = ''1700''"
    by (simp add: str_def str_nat.simps)
  from all lt have
    "p_price (ps ! 57) = str (1000 + (int 57 mod 50) * 100) \<and>
     p_stock (ps ! 57) = Some (5 + int 57 mod 20)"
    by blast
  then have "p_price (product_rows d' ! 57) = ''1700'' \<and>
      p_stock (product_rows d' ! 57) = Some 22"
    unfolding eq s by simp
  with d' lt show ?thesis by blast
qed

text \<open>
  \<^bold>\<open>C4.\<close> On every store whose categories table holds the eight fixed names, whatever
  else it holds, a run ends normally and leaves the category rows as they were; in
  particular their number does not change.
\<close>

theorem rerun_keeps_category_count:
  assumes "set category_names \<subseteq> set (map c_name (category_rows d))"
  shows "\<exists>d'. seed d now = Inr d' \<and>
           length (category_rows d') = length (category_rows d) \<and>
           category_rows d' = category_rows d"
proof -
  from seed_total obtain d' where d': "seed d now = Inr d'" by blast
  have "category_rows d' = category_rows d"
    using seed_categories_present [OF d'] assms by simp
  with d' show ?thesis by simp
qed

theorem rerun_keeps_category_count_witness:
  "set category_names \<subseteq> set (map c_name (category_rows store_with_categories)) \<and>
   (\<exists>d'. seed store_with_categories 1700000000000 = Inr d' \<and>
      length (category_rows d') = 9)"
proof -
  have h: "set category_names \<subseteq> set (map c_name (category_rows store_with_categories))"
    by (simp add: store_with_categories_def category_rows_def category_names_def
          CATEGORIES_def)
  have n: "length (category_rows store_with_categories) = 9"
    by (simp add: store_with_categories_def category_rows_def category_names_def
          CATEGORIES_def)
  show ?thesis
    using h n rerun_keeps_category_count [OF h, of 1700000000000] by auto
qed



text \<open>
  \<^bold>\<open>C6.\<close> The category identifier of a generated product is read back from the store
  and always resolves to a category row. The seller identifier is \<open>(i mod 5) + 1\<close> whatever
  identifiers the store gave to the sellers. On the store whose tables were emptied after
  an earlier run, the run inserts its categories under the identifiers 9 to 16 and its
  sellers under the identifiers 6 to 10: every product row refers to a category row of the
  store, and no product row refers to a seller row of the store.
\<close>

theorem seller_reference_dangles_after_clearing:
  "\<exists>d'. seed cleared_store now = Inr d' \<and>
     map c_id (category_rows d') = [9, 10, 11, 12, 13, 14, 15, 16] \<and>
     map s_id (seller_rows d') = [6, 7, 8, 9, 10] \<and>
     length (product_rows d') = 1184 \<and>
     p_sellerId (hd (product_rows d')) = 1 \<and>
     set (map p_categoryId (product_rows d')) \<subseteq> set (map c_id (category_rows d')) \<and>
     set (map p_sellerId (product_rows d')) \<inter> set (map s_id (seller_rows d')) = {}"
proof -
  from seed_total obtain d' where d': "seed cleared_store now = Inr d'" by blast
  have "map (\<lambda>c. (c_id c, c_name c)) (category_rows d') =
     [(9, ''Shoes''), (10, ''Fashion''), (11, ''Furniture''), (12, ''Electronics''),
      (13, ''Accessories''), (14, ''Home Decor''), (15, ''Jewelry''), (16, ''Watches'')]"
    unfolding seed_category_rows [OF d']
    by (simp add: cleared_store_def table_of_def categories_on_cleared_table)
  then have "map fst (map (\<lambda>c. (c_id c, c_name c)) (category_rows d')) =
     [9, 10, 11, 12, 13, 14, 15, 16]"
    by simp
  then have cat: "map c_id (category_rows d') = [9, 10, 11, 12, 13, 14, 15, 16]"
    by (simp add: comp_def)
  have sel: "map s_id (seller_rows d') = [6, 7, 8, 9, 10]"
    using seed_tables(2) [OF d']
    by (simp add: seller_rows_def cleared_store_def table_of_def sellers_on_cleared_table)
  have old: "product_rows cleared_store = []"
    by (simp add: product_rows_def cleared_store_def)
  from product_seller_ids [OF d'] obtain ps where
    ps: "product_rows d' = ps" "ps \<noteq> []" "p_sellerId (hd ps) = 1"
      "set (map p_sellerId ps) \<subseteq> {1..5}"
    by (auto simp: old)
  have len: "length (product_rows d') = 1184"
    using seed_lengths(2) [OF d'] by (simp add: old)
  have cref: "set (map p_categoryId (product_rows d')) \<subseteq> set (map c_id (category_rows d'))"
  proof
    fix x assume "x \<in> set (map p_categoryId (product_rows d'))"
    then obtain p where p: "p \<in> set (product_rows d')" "x = p_categoryId p"
      by auto
    from seed_products_D [OF d'] obtain qs where
      qs: "product_rows d' = qs" "length qs = 1184"
        "\<forall>k<1184. \<exists>cid i.
            category_map_after cleared_store now (category_names ! (k mod 8)) = Some cid \<and>
            qs ! k = product_row_at now k cid i"
      by (auto simp: old)
    from p(1) qs(1,2) obtain k where k: "k < 1184" "p = qs ! k"
      by (auto simp: in_set_conv_nth)
    with qs(3) obtain cid i where
      c: "category_map_after cleared_store now (category_names ! (k mod 8)) = Some cid"
      and r: "p = product_row_at now k cid i"
      by auto
    from seed_category_reference [OF d' c] obtain c' where
      "c' \<in> set (category_rows d')" "c_id c' = cid"
      by blast
    then show "x \<in> set (map c_id (category_rows d'))"
      using p(2) r by (auto simp: product_row_at_def)
  qed
  have disj: "set (map p_sellerId (product_rows d')) \<inter> set (map s_id (seller_rows d')) = {}"
    unfolding sel using ps(1,4) by auto
  show ?thesis
  proof (intro exI [of _ d'] conjI)
    show "seed cleared_store now = Inr d'" by (rule d')
    show "map c_id (category_rows d') = [9, 10, 11, 12, 13, 14, 15, 16]" by (rule cat)
    show "map s_id (seller_rows d') = [6, 7, 8, 9, 10]" by (rule sel)
    show "length (product_rows d') = 1184" by (rule len)
    show "p_sellerId (hd (product_rows d')) = 1" using ps(1,3) by simp
    show "set (map p_categoryId (product_rows d')) \<subseteq> set (map c_id (category_rows d'))"
      by (rule cref)
    show "set (map p_sellerId (product_rows d')) \<inter> set (map s_id (seller_rows d')) = {}"
      by (rule disj)
  qed
qed

text \<open>
  \<^bold>\<open>C7.\<close> After a run on the fresh file, the product at index 0 resolves to the category
  named Shoes, has seller identifier 1, name \<open>''Shoes Item 1''\<close>, price \<open>''1000''\<close> and
  stock 5; the product at index 1183, the last one, resolves to the category named Watches,
  has seller identifier 4, price \<open>''4300''\<close> and stock 8.
\<close>

theorem first_and_last_product_on_empty_store:
  "\<exists>d'. seed empty_db now = Inr d' \<and> length (product_rows d') = 1184 \<and>
     category_of d' (product_rows d' ! 0) = [''Shoes''] \<and>
     p_sellerId (product_rows d' ! 0) = 1 \<and>
     p_name (product_rows d' ! 0) = ''Shoes Item 1'' \<and>
     p_price (product_rows d' ! 0) = ''1000'' \<and>
     p_stock (product_rows d' ! 0) = Some 5 \<and>
     category_of d' (product_rows d' ! 1183) = [''Watches''] \<and>
     p_sellerId (product_rows d' ! 1183) = 4 \<and>
     p_price (product_rows d' ! 1183) = ''4300'' \<and>
     p_stock (product_rows d' ! 1183) = Some 8"
proof -
  from seed_total obtain d' where d': "seed empty_db now = Inr d'" by blast
  from seed_products_D [OF d'] obtain ps where
    ps: "product_rows d' = ps" "length ps = 1184"
      "\<forall>k<1184. \<exists>cid i.
          category_map_after empty_db now (category_names ! (k mod 8)) = Some cid \<and>
          ps ! k = product_row_at now k cid i"
    by (auto simp: product_rows_empty_db)
  have cats: "map (\<lambda>c. (c_id c, c_name c)) (category_rows d') =
     [(1, ''Shoes''), (2, ''Fashion''), (3, ''Furniture''), (4, ''Electronics''),
      (5, ''Accessories''), (6, ''Home Decor''), (7, ''Jewelry''), (8, ''Watches'')]"
    unfolding seed_category_rows [OF d']
    by (simp add: empty_db_def table_of_def categories_on_new_table)
  have n0: "category_names ! 0 = ''Shoes''"
    and n1183: "category_names ! 7 = ''Watches''"
    by (simp_all add: category_names_def CATEGORIES_def)
  have "(0::nat) < 1184" by simp
  with ps(3) obtain cid0 i0 where
    "category_map_after empty_db now (category_names ! (0 mod 8)) = Some cid0"
    "ps ! 0 = product_row_at now 0 cid0 i0"
    by blast
  then have r0: "ps ! 0 = product_row_at now 0 1 i0"
    by (simp add: n0 category_map_on_empty_db)
  have "(1183::nat) < 1184" by simp
  with ps(3) obtain cid i1 where
    "category_map_after empty_db now (category_names ! (1183 mod 8)) = Some cid"
    "ps ! 1183 = product_row_at now 1183 cid i1"
    by blast
  then have r1183: "ps ! 1183 = product_row_at now 1183 8 i1"
    by (simp add: n1183 category_map_on_empty_db)
  have s: "str (int 0 + 1) = ''1''" "str (1000 + (int 0 mod 50) * 100) = ''1000''"
    "str (1000 + (int 1183 mod 50) * 100) = ''4300''"
    by (simp_all add: str_def str_nat.simps)
  have "category_of d' (ps ! 0) = [''Shoes'']"
    unfolding category_of_pairs cats r0 by (simp add: product_row_at_def)
  moreover have "category_of d' (ps ! 1183) = [''Watches'']"
    unfolding category_of_pairs cats r1183 by (simp add: product_row_at_def)
  moreover have "p_sellerId (ps ! 0) = 1" "p_stock (ps ! 0) = Some 5"
    "p_sellerId (ps ! 1183) = 4" "p_stock (ps ! 1183) = Some 8"
    unfolding r0 r1183 by (simp_all add: product_row_at_def)
  moreover have "p_name (ps ! 0) = ''Shoes Item 1''"
    unfolding r0 product_row_at_def using n0 s(1) by simp
  moreover have "p_price (ps ! 0) = ''1000''" "p_price (ps ! 1183) = ''4300''"
    unfolding r0 r1183 product_row_at_def using s(2,3) by simp_all
  ultimately show ?thesis
    using d' ps(1,2) by auto
qed

text \<open>
  \<^bold>\<open>C8.\<close> A run on any store ends normally, and every row it appends carries the clock
  reading of the run: \<open>createdAt\<close> of every new category, \<open>createdAt\<close> and \<open>updatedAt\<close> of
  every new seller and of every new product; for a product the two are equal.
\<close>

theorem inserted_rows_share_timestamp:
  "\<exists>d' cs ss ps. seed d now = Inr d' \<and>
     category_rows d' = category_rows d @ cs \<and>
     seller_rows d' = seller_rows d @ ss \<and>
     product_rows d' = product_rows d @ ps \<and>
     (\<forall>c\<in>set cs. c_createdAt c = Some now) \<and>
     (\<forall>s\<in>set ss. s_createdAt s = Some now \<and> s_updatedAt s = Some now) \<and>
     (\<forall>p\<in>set ps. p_createdAt p = Some now \<and> p_updatedAt p = Some now \<and>
        p_createdAt p = p_updatedAt p)"
proof -
  from seed_total obtain d' where d': "seed d now = Inr d'" by blast
  from seed_categories_D [OF d'] obtain cs where
    cs: "category_rows d' = category_rows d @ cs" "\<forall>c\<in>set cs. c_createdAt c = Some now"
    by blast
  from seed_sellers_D [OF d'] obtain ss where
    ss: "seller_rows d' = seller_rows d @ ss"
      "\<forall>s\<in>set ss. s_createdAt s = Some now \<and> s_updatedAt s = Some now"
    by blast
  from seed_products_D [OF d'] obtain ps where
    ps: "product_rows d' = product_rows d @ ps" "length ps = 1184"
      "\<forall>k<1184. \<exists>cid i.
          category_map_after d now (category_names ! (k mod 8)) = Some cid \<and>
          ps ! k = product_row_at now k cid i"
    by blast
  have "p_createdAt p = Some now \<and> p_updatedAt p = Some now \<and> p_createdAt p = p_updatedAt p"
    if "p \<in> set ps" for p
  proof -
    from that ps(2) obtain k where k: "k < 1184" "p = ps ! k"
      by (auto simp: in_set_conv_nth)
    with ps(3) obtain cid i where "p = product_row_at now k cid i"
      by auto
    then show ?thesis by (simp add: product_row_at_def)
  qed
  with d' cs ss ps(1) show ?thesis by blast
qed

theorem inserted_rows_share_timestamp_witness:
  "\<exists>d'. seed empty_db 1700000000000 = Inr d' \<and>
     category_rows d' \<noteq> [] \<and> seller_rows d' \<noteq> [] \<and> product_rows d' \<noteq> [] \<and>
     c_createdAt (hd (category_rows d')) = Some 1700000000000 \<and>
     s_createdAt (hd (seller_rows d')) = Some 1700000000000 \<and>
     s_updatedAt (hd (seller_rows d')) = Some 1700000000000 \<and>
     p_createdAt (hd (product_rows d')) = Some 1700000000000 \<and>
     p_updatedAt (hd (product_rows d')) = Some 1700000000000"
proof -
  from inserted_rows_share_timestamp [of empty_db 1700000000000] obtain d' cs ss ps where
    d': "seed empty_db 1700000000000 = Inr d'"
    and rows: "category_rows d' = cs" "seller_rows d' = ss" "product_rows d' = ps"
    and ts: "\<forall>c\<in>set cs. c_createdAt c = Some 1700000000000"
      "\<forall>s\<in>set ss. s_createdAt s = Some 1700000000000 \<and> s_updatedAt s = Some 1700000000000"
      "\<forall>p\<in>set ps. p_createdAt p = Some 1700000000000 \<and> p_updatedAt p = Some 1700000000000 \<and>
        p_createdAt p = p_updatedAt p"
    by (auto simp: category_rows_empty_db seller_rows_empty_db product_rows_empty_db)
  have "length (map c_name cs) = 8"
    using seed_categories_fresh [OF d' category_rows_empty_db]
    by (simp add: rows length_category_names)
  then have c: "cs \<noteq> []" by auto
  have s: "ss \<noteq> []" and p: "ps \<noteq> []"
    using seed_lengths [OF d'] by (auto simp: rows seller_rows_empty_db product_rows_empty_db)
  from c s p have "hd cs \<in> set cs" "hd ss \<in> set ss" "hd ps \<in> set ps"
    by simp_all
  with ts c s p d' show ?thesis
    unfolding rows [symmetric] by blast
qed

text \<open>
  \<^bold>\<open>C9.\<close> A run on any store ends normally; afterwards the three tables exist, and each
  holds the rows it held before, unchanged and in their order, followed by the rows of the
  run. The statements of the model are \<^verbatim>\<open>CREATE TABLE IF NOT EXISTS\<close>, inserts and one
  \<^verbatim>\<open>SELECT\<close>; there is no other.
\<close>

theorem existing_rows_untouched:
  "\<exists>d' cs ss ps tc ts tp. seed d now = Inr d' \<and>
     tbl_categories d' = Some tc \<and> tbl_sellers d' = Some ts \<and> tbl_products d' = Some tp \<and>
     category_rows d' = category_rows d @ cs \<and>
     seller_rows d' = seller_rows d @ ss \<and>
     product_rows d' = product_rows d @ ps"
proof -
  from seed_total obtain d' where d': "seed d now = Inr d'" by blast
  from seed_categories_D [OF d'] seed_sellers_D [OF d'] seed_products_D [OF d']
    seed_tables [OF d'] d'
  show ?thesis by blast
qed


end
